theory Spec2Isabelle
  imports
    Main
    "HOL-Library.Word"
    "HOL-Library.Char_ord"
    "HOL-Library.List_Lexorder"
    "HOL-Library.Multiset"
begin

section \<open>etcdctl cluster-health: the data model\<close>

text \<open>
  The embedding follows \<^verbatim>\<open>etcdctl/command/cluster_health.go\<close>. The JSON document a
  member serves under \<^verbatim>\<open>/debug/vars\<close> is decoded into \<^verbatim>\<open>vars\<close>, whose only field is
  the \<^verbatim>\<open>raftStatus\<close>. Every numeric field is a Go \<^verbatim>\<open>uint64\<close>, here a 64-bit word
  (comparison on words is unsigned, as Go's is on \<^verbatim>\<open>uint64\<close>).

  The Go map \<^verbatim>\<open>Progress\<close> is kept as the list of its entries, in the order in which
  the one \<^verbatim>\<open>range\<close> statement of the program visits them: Go fixes no iteration
  order, so theorems about the report quantify over every such order. A lookup
  \<^verbatim>\<open>rs1.Progress[id]\<close> is \<open>map_of\<close>.
\<close>

record progress =
  Match :: "64 word"
  Next :: "64 word"
  State :: string

record raftStatus =
  ID :: string
  Term :: "64 word"
  Vote :: string
  Commit :: "64 word"
  Lead :: string
  RaftState :: string
  Progress :: "(string \<times> progress) list"

record vars =
  RaftStatus :: raftStatus

text \<open>Go's zero value \<^verbatim>\<open>raftStatus{}\<close>: empty strings, zero numbers, a nil map.\<close>

definition zero_raftStatus :: raftStatus where
  "zero_raftStatus =
     \<lparr>ID = [], Term = 0, Vote = [], Commit = 0, Lead = [], RaftState = [], Progress = []\<rparr>"

text \<open>The only error value the file makes: \<^verbatim>\<open>errors.New("no leader")\<close>.\<close>

datatype error = NoLeader

text \<open>
  What one \<^verbatim>\<open>httpclient.Get\<close> gives: an error of the transport, or a response with
  its status code and the outcome of \<^verbatim>\<open>json.NewDecoder(resp.Body).Decode(vs)\<close>
  (\<open>None\<close> when decoding fails). The transport is the environment: it answers the
  \<open>n\<close>-th request of the run, sent to a URL.
\<close>

datatype http_result = GetError | Response nat "vars option"

type_synonym transport = "nat \<Rightarrow> string \<Rightarrow> http_result"

text \<open>
  What the process does to the outside, in order: a request sent, a string written to
  standard output, a pause of so many seconds.
\<close>

datatype event = Get string | Print string | Sleep nat

text \<open>How the command ends: the handler returns, or \<^verbatim>\<open>os.Exit(code)\<close> is called.\<close>

datatype status = Returned | Exited nat

text \<open>
  The exit status of the process: a Go program whose handler returns normally ends
  with status 0, \<^verbatim>\<open>os.Exit(n)\<close> ends it with status \<open>n\<close>.
\<close>

fun exit_status :: "status \<Rightarrow> nat" where
  "exit_status Returned = 0"
| "exit_status (Exited n) = n"

section \<open>Formatting\<close>

text \<open>\<^verbatim>\<open>%v\<close> of a \<^verbatim>\<open>uint64\<close> is its decimal numeral.\<close>

fun show_nat :: "nat \<Rightarrow> string" where
  "show_nat n =
     (if n < 10 then [char_of (48 + n)]
      else show_nat (n div 10) @ [char_of (48 + n mod 10)])"

declare show_nat.simps [simp del]

definition show_uint64 :: "64 word \<Rightarrow> string" where
  "show_uint64 w = show_nat (unat w)"

text \<open>\<^verbatim>\<open>%v\<close> of a \<^verbatim>\<open>[]string\<close>: the elements between brackets, separated by spaces.\<close>

fun join_spaces :: "string list \<Rightarrow> string" where
  "join_spaces [] = []"
| "join_spaces [x] = x"
| "join_spaces (x # y # ys) = x @ '' '' @ join_spaces (y # ys)"

definition show_strings :: "string list \<Rightarrow> string" where
  "show_strings xs = ''['' @ join_spaces xs @ '']''"

text \<open>The lines the handler prints, one definition per format string.\<close>

definition failed_to_connect :: "string list \<Rightarrow> string" where
  "failed_to_connect cl =
     ''cluster may be unhealthy: failed to connect '' @ show_strings cl @ ''\<newline>''"

definition cluster_is_unhealthy :: string where
  "cluster_is_unhealthy = ''cluster is unhealthy\<newline>''"

definition cluster_healthy :: "64 word \<Rightarrow> 64 word \<Rightarrow> string" where
  "cluster_healthy c0 c1 =
     ''cluster is healthy: raft is making progress [commit index: '' @ show_uint64 c0
       @ ''->'' @ show_uint64 c1 @ '']\<newline>''"

definition cluster_unhealthy :: "64 word \<Rightarrow> string" where
  "cluster_unhealthy c0 =
     ''cluster is unhealthy: raft is not making progress [commit index: '' @ show_uint64 c0
       @ '']\<newline>''"

definition leader_is :: "string \<Rightarrow> string" where
  "leader_is l = ''leader is '' @ l @ ''\<newline>''"

definition configuration_changed :: string where
  "configuration_changed =
     ''Cluster configuration changed during health checking. Please retry.\<newline>''"

definition member_unhealthy :: "string \<Rightarrow> 64 word \<Rightarrow> 64 word \<Rightarrow> string" where
  "member_unhealthy mid m0 m1 =
     ''member '' @ mid @ '' is unhealthy: raft is not making progress [match: ''
       @ show_uint64 m0 @ ''->'' @ show_uint64 m1 @ '']\<newline>''"

definition member_healthy :: "string \<Rightarrow> 64 word \<Rightarrow> 64 word \<Rightarrow> string" where
  "member_healthy mid m0 m1 =
     ''member '' @ mid @ '' is healthy: raft is making progress [match: ''
       @ show_uint64 m0 @ ''->'' @ show_uint64 m1 @ '']\<newline>''"

text \<open>
  \<^verbatim>\<open>sort.Strings\<close>: ascending in Go's order on strings, which compares byte by byte
  and puts a proper prefix first. That is the lexicographic order on \<open>char list\<close>
  with characters ordered by their code.
\<close>

definition sort_Strings :: "string list \<Rightarrow> string list" where
  "sort_Strings xs = sort xs"

section \<open>getLeaderStatus\<close>

text \<open>
  The loop over \<^verbatim>\<open>endpoints\<close>: one request per endpoint, \<^verbatim>\<open>continue\<close> on a transport
  error, on a status other than 200, on a decode error and on a snapshot whose
  \<^verbatim>\<open>Lead\<close> differs from its \<^verbatim>\<open>ID\<close>; the first endpoint that passes all four is
  returned. When the list runs out the result is
  \<^verbatim>\<open>"", raftStatus{}, errors.New("no leader")\<close>. The function also returns the requests
  it sent; \<open>n\<close> counts the requests of the run before the call.
\<close>

fun getLeaderStatus ::
  "transport \<Rightarrow> nat \<Rightarrow> string list \<Rightarrow> (string \<times> raftStatus \<times> error option) \<times> event list"
where
  "getLeaderStatus tr n [] = (([], zero_raftStatus, Some NoLeader), [])"
| "getLeaderStatus tr n (ep # endpoints) =
     (let url = ep @ ''/debug/vars'';
          continue = getLeaderStatus tr (Suc n) endpoints;
          (r, gets) =
            (case tr n url of
               GetError \<Rightarrow> continue
             | Response code body \<Rightarrow>
                 if code \<noteq> 200 then continue
                 else (case body of
                         None \<Rightarrow> continue
                       | Some vs \<Rightarrow>
                           if Lead (RaftStatus vs) \<noteq> ID (RaftStatus vs) then continue
                           else ((ep, RaftStatus vs, None), [])))
      in (r, Get url # gets))"

section \<open>handleClusterHealth\<close>

text \<open>
  The loop over \<^verbatim>\<open>rs0.Progress\<close> (lines 92 to 104). \<open>None\<close> stands for the branch that
  prints the configuration message and calls \<^verbatim>\<open>os.Exit(1)\<close>; otherwise the rendered
  lines are appended to \<^verbatim>\<open>prints\<close> in the order of the iteration.
\<close>

fun range_Progress ::
  "(string \<times> progress) list \<Rightarrow> raftStatus \<Rightarrow> string list \<Rightarrow> string list option"
where
  "range_Progress [] rs1 prints = Some prints"
| "range_Progress ((mid, pr0) # rest) rs1 prints =
     (case map_of (Progress rs1) mid of
        None \<Rightarrow> None
      | Some pr1 \<Rightarrow>
          if Match pr1 \<le> Match pr0
          then range_Progress rest rs1 (prints @ [member_unhealthy mid (Match pr0) (Match pr1)])
          else range_Progress rest rs1 (prints @ [member_healthy mid (Match pr0) (Match pr1)]))"

text \<open>
  Lines 83 to 109, entered with the two snapshots: the line of the overall verdict and
  the line of the leader are printed first, then the loop over \<^verbatim>\<open>rs0.Progress\<close>
  runs, and then either the configuration message is printed and the process exits
  with status 1, or the sorted \<^verbatim>\<open>prints\<close> are printed. The result is what was
  written to standard output, and \<open>Some (Exited 1)\<close> when the process ended here.
\<close>

definition evaluate :: "raftStatus \<Rightarrow> raftStatus \<Rightarrow> string list \<times> status option" where
  "evaluate rs0 rs1 =
     (let out = [if Commit rs1 > Commit rs0
                 then cluster_healthy (Commit rs0) (Commit rs1)
                 else cluster_unhealthy (Commit rs0),
                 leader_is (Lead rs0)]
      in (case range_Progress (Progress rs0) rs1 [] of
            None \<Rightarrow> (out @ [configuration_changed], Some (Exited 1))
          | Some prints \<Rightarrow> (out @ sort_Strings prints, None)))"

text \<open>
  One pass through the body of the \<^verbatim>\<open>for\<close> loop (lines 58 to 115), started when \<open>n\<close>
  requests have been sent. It returns what the pass did, how the process ended in it
  (\<open>None\<close>: the loop goes round again, by \<^verbatim>\<open>continue\<close> or by reaching the end of the
  body), and the number of requests sent so far.
\<close>

definition cycle ::
  "bool \<Rightarrow> transport \<Rightarrow> string list \<Rightarrow> nat \<Rightarrow> event list \<times> status option \<times> nat"
where
  "cycle forever tr cl n =
     (case getLeaderStatus tr n cl of
        ((ep, rs0, Some err), gets0) \<Rightarrow>
          (gets0 @ [Print (failed_to_connect cl)] @ (if forever then [Sleep 10] else []),
           if forever then None else Some (Exited 1),
           n + length gets0)
      | ((ep, rs0, None), gets0) \<Rightarrow>
          (case getLeaderStatus tr (n + length gets0) [ep] of
             ((ep1, rs1, Some err), gets1) \<Rightarrow>
               (gets0 @ [Sleep 1] @ gets1 @ [Print cluster_is_unhealthy]
                  @ (if forever then [Sleep 10] else []),
                if forever then None else Some (Exited 1),
                n + length gets0 + length gets1)
           | ((ep1, rs1, None), gets1) \<Rightarrow>
               (case evaluate rs0 rs1 of
                  (out, Some st) \<Rightarrow>
                    (gets0 @ [Sleep 1] @ gets1 @ map Print out, Some st,
                     n + length gets0 + length gets1)
                | (out, None) \<Rightarrow>
                    (gets0 @ [Sleep 1] @ gets1 @ map Print out
                       @ (if forever then [Sleep 10] else []),
                     if forever then None else Some Returned,
                     n + length gets0 + length gets1))))"

text \<open>
  The \<^verbatim>\<open>for\<close> loop has no exit condition, so the model runs it for at most \<open>fuel\<close>
  passes: the result is what the process did and how it ended, \<open>None\<close> when it is still
  running after that many passes.
\<close>

fun for_loop ::
  "nat \<Rightarrow> bool \<Rightarrow> transport \<Rightarrow> string list \<Rightarrow> nat \<Rightarrow> event list \<times> status option"
where
  "for_loop 0 forever tr cl n = ([], None)"
| "for_loop (Suc fuel) forever tr cl n =
     (case cycle forever tr cl n of
        (evs, Some st, n') \<Rightarrow> (evs, Some st)
      | (evs, None, n') \<Rightarrow>
          (let (evs', r) = for_loop fuel forever tr cl n' in (evs @ evs', r)))"

text \<open>
  The handler from line 52 on. The transport and the member list come from code outside
  this file (\<^verbatim>\<open>getTransport\<close>, \<^verbatim>\<open>mustNewMembersAPI\<close>), so they are parameters: \<open>ms\<close> is
  the \<^verbatim>\<open>ClientURLs\<close> of each member, appended into \<^verbatim>\<open>cl\<close>. The goroutine that ends the
  process on an interrupt runs beside the loop and is not part of this sequential model.
\<close>

definition handleClusterHealth ::
  "nat \<Rightarrow> bool \<Rightarrow> transport \<Rightarrow> string list list \<Rightarrow> event list \<times> status option"
where
  "handleClusterHealth fuel forever tr ms = for_loop fuel forever tr (concat ms) 0"

section \<open>Notions of the specification\<close>

text \<open>
  An endpoint is unavailable when its request fails in one of the three ways the
  specification lists: a transport error, a status other than success (the code takes
  200 alone for success), a body that does not decode.
\<close>

definition unavailable :: "http_result \<Rightarrow> bool" where
  "unavailable r =
     (case r of GetError \<Rightarrow> True | Response code body \<Rightarrow> code \<noteq> 200 \<or> body = None)"

text \<open>
  An answer self-reports leadership when it carries a snapshot (status 200, a body that
  decodes) whose leader is the member itself.
\<close>

definition self_reported_leader :: "http_result \<Rightarrow> bool" where
  "self_reported_leader r =
     (case r of
        GetError \<Rightarrow> False
      | Response code body \<Rightarrow>
          code = 200 \<and>
          (case body of None \<Rightarrow> False | Some vs \<Rightarrow> Lead (RaftStatus vs) = ID (RaftStatus vs)))"

text \<open>The snapshot an answer carries (the zero snapshot when it carries none).\<close>

definition snapshot :: "http_result \<Rightarrow> raftStatus" where
  "snapshot r =
     (case r of
        GetError \<Rightarrow> zero_raftStatus
      | Response code body \<Rightarrow>
          (case body of None \<Rightarrow> zero_raftStatus | Some vs \<Rightarrow> RaftStatus vs))"

text \<open>The member IDs a snapshot tracks: the keys of its \<^verbatim>\<open>Progress\<close>.\<close>

definition members :: "raftStatus \<Rightarrow> string set" where
  "members rs = fst ` set (Progress rs)"

text \<open>
  The line of one entry of the first snapshot, as the specification words it: healthy
  when the second snapshot's match index for that member is strictly greater, unhealthy
  otherwise (empty when the second snapshot does not track the member).
\<close>

definition member_line :: "raftStatus \<Rightarrow> string \<times> progress \<Rightarrow> string" where
  "member_line rs1 e =
     (case map_of (Progress rs1) (fst e) of
        None \<Rightarrow> []
      | Some pr1 \<Rightarrow>
          if Match (snd e) < Match pr1
          then member_healthy (fst e) (Match (snd e)) (Match pr1)
          else member_unhealthy (fst e) (Match (snd e)) (Match pr1))"

section \<open>Example clusters\<close>

text \<open>
  The example of the specification: leader \<open>A\<close> with followers \<open>A\<close> and \<open>B\<close>, commit
  index 100 at the first snapshot and 105 at the second.
\<close>

definition leader_A0 :: raftStatus where
  "leader_A0 =
     \<lparr>ID = ''A'', Term = 2, Vote = ''A'', Commit = 100, Lead = ''A'',
      RaftState = ''StateLeader'',
      Progress = [(''A'', \<lparr>Match = 100, Next = 101, State = ''ProgressStateReplicate''\<rparr>),
                  (''B'', \<lparr>Match = 95, Next = 96, State = ''ProgressStateReplicate''\<rparr>)]\<rparr>"

definition leader_A1 :: raftStatus where
  "leader_A1 =
     \<lparr>ID = ''A'', Term = 2, Vote = ''A'', Commit = 105, Lead = ''A'',
      RaftState = ''StateLeader'',
      Progress = [(''A'', \<lparr>Match = 105, Next = 106, State = ''ProgressStateReplicate''\<rparr>),
                  (''B'', \<lparr>Match = 100, Next = 101, State = ''ProgressStateReplicate''\<rparr>)]\<rparr>"

definition follower_B :: raftStatus where
  "follower_B =
     \<lparr>ID = ''B'', Term = 2, Vote = ''A'', Commit = 100, Lead = ''A'',
      RaftState = ''StateFollower'', Progress = []\<rparr>"

text \<open>A member that still believes it leads an older term.\<close>

definition stale_leader_C :: raftStatus where
  "stale_leader_C =
     \<lparr>ID = ''C'', Term = 1, Vote = ''C'', Commit = 40, Lead = ''C'',
      RaftState = ''StateLeader'', Progress = []\<rparr>"

text \<open>The leader's second snapshot after member \<open>B\<close> has left the cluster.\<close>

definition leader_A_alone :: raftStatus where
  "leader_A_alone =
     \<lparr>ID = ''A'', Term = 2, Vote = ''A'', Commit = 105, Lead = ''A'',
      RaftState = ''StateLeader'',
      Progress = [(''A'', \<lparr>Match = 105, Next = 106, State = ''ProgressStateReplicate''\<rparr>)]\<rparr>"

text \<open>
  A network in which \<open>a\<close> serves the leader (the first snapshot to the requests
  before the \<open>k\<close>-th, the second from then on), \<open>b\<close> serves a follower, \<open>c\<close> serves the
  stale leader, \<open>d\<close> answers 503, \<open>e\<close> answers 200 with a body that does not decode, and
  nothing else answers.
\<close>

definition net :: "nat \<Rightarrow> raftStatus \<Rightarrow> raftStatus \<Rightarrow> transport" where
  "net k s0 s1 n url =
     (if url = ''http://a:2379/debug/vars''
      then Response 200 (Some \<lparr>RaftStatus = (if n < k then s0 else s1)\<rparr>)
      else if url = ''http://b:2379/debug/vars''
      then Response 200 (Some \<lparr>RaftStatus = follower_B\<rparr>)
      else if url = ''http://c:2379/debug/vars''
      then Response 200 (Some \<lparr>RaftStatus = stale_leader_C\<rparr>)
      else if url = ''http://d:2379/debug/vars'' then Response 503 None
      else if url = ''http://e:2379/debug/vars'' then Response 200 None
      else GetError)"

section \<open>The leader locator\<close>

lemma getLeaderStatus_leader:
  "self_reported_leader (tr n (ep @ ''/debug/vars'')) \<Longrightarrow>
   getLeaderStatus tr n (ep # eps) =
     ((ep, snapshot (tr n (ep @ ''/debug/vars'')), None), [Get (ep @ ''/debug/vars'')])"
  by (simp add: self_reported_leader_def snapshot_def Let_def
      split: http_result.splits option.splits)

lemma getLeaderStatus_skip:
  "\<not> self_reported_leader (tr n (ep @ ''/debug/vars'')) \<Longrightarrow>
   getLeaderStatus tr n (ep # eps) =
     (fst (getLeaderStatus tr (Suc n) eps),
      Get (ep @ ''/debug/vars'') # snd (getLeaderStatus tr (Suc n) eps))"
  by (auto simp add: self_reported_leader_def Let_def split_beta
      split: http_result.splits option.splits)

declare getLeaderStatus.simps(2) [simp del]

lemma unavailable_not_leader: "unavailable r \<Longrightarrow> \<not> self_reported_leader r"
  by (auto simp add: unavailable_def self_reported_leader_def split: http_result.splits)

lemma leader_snapshot: "self_reported_leader r \<Longrightarrow> Lead (snapshot r) = ID (snapshot r)"
  by (auto simp add: snapshot_def self_reported_leader_def
      split: http_result.splits option.splits)

lemma leader_answer:
  "self_reported_leader r = (\<exists>vs. r = Response 200 (Some vs) \<and> Lead (RaftStatus vs) = ID (RaftStatus vs))"
  by (auto simp add: self_reported_leader_def split: http_result.splits option.splits)

lemma getLeaderStatus_none:
  "\<forall>i<length eps. \<not> self_reported_leader (tr (n + i) (eps ! i @ ''/debug/vars'')) \<Longrightarrow>
   getLeaderStatus tr n eps =
     (([], zero_raftStatus, Some NoLeader), map (\<lambda>ep. Get (ep @ ''/debug/vars'')) eps)"
proof (induction eps arbitrary: n)
  case Nil
  then show ?case by simp
next
  case (Cons ep eps)
  from Cons.prems have here: "\<not> self_reported_leader (tr n (ep @ ''/debug/vars''))"
    by force
  have "\<forall>i<length eps. \<not> self_reported_leader (tr (Suc n + i) (eps ! i @ ''/debug/vars''))"
  proof (intro allI impI)
    fix i assume "i < length eps"
    with Cons.prems
    have "\<not> self_reported_leader (tr (n + Suc i) ((ep # eps) ! Suc i @ ''/debug/vars''))"
      by (metis Suc_less_eq length_Cons)
    then show "\<not> self_reported_leader (tr (Suc n + i) (eps ! i @ ''/debug/vars''))"
      by simp
  qed
  then have "getLeaderStatus tr (Suc n) eps =
     (([], zero_raftStatus, Some NoLeader), map (\<lambda>ep. Get (ep @ ''/debug/vars'')) eps)"
    by (rule Cons.IH)
  with here show ?case by (simp add: getLeaderStatus_skip)
qed

lemma getLeaderStatus_first:
  "i < length eps \<Longrightarrow>
   self_reported_leader (tr (n + i) (eps ! i @ ''/debug/vars'')) \<Longrightarrow>
   \<forall>j<i. \<not> self_reported_leader (tr (n + j) (eps ! j @ ''/debug/vars'')) \<Longrightarrow>
   getLeaderStatus tr n eps =
     ((eps ! i, snapshot (tr (n + i) (eps ! i @ ''/debug/vars'')), None),
      map (\<lambda>ep. Get (ep @ ''/debug/vars'')) (take (Suc i) eps))"
proof (induction eps arbitrary: n i)
  case Nil
  then show ?case by simp
next
  case (Cons ep eps)
  show ?case
  proof (cases i)
    case 0
    with Cons.prems show ?thesis by (simp add: getLeaderStatus_leader)
  next
    case (Suc k)
    with Cons.prems have here: "\<not> self_reported_leader (tr n (ep @ ''/debug/vars''))"
      by force
    have k: "k < length eps" using Cons.prems Suc by simp
    have lead: "self_reported_leader (tr (Suc n + k) (eps ! k @ ''/debug/vars''))"
      using Cons.prems Suc by simp
    have before: "\<forall>j<k. \<not> self_reported_leader (tr (Suc n + j) (eps ! j @ ''/debug/vars''))"
    proof (intro allI impI)
      fix j assume "j < k"
      then have "Suc j < i" using Suc by simp
      with Cons.prems
      have "\<not> self_reported_leader (tr (n + Suc j) ((ep # eps) ! Suc j @ ''/debug/vars''))"
        by blast
      then show "\<not> self_reported_leader (tr (Suc n + j) (eps ! j @ ''/debug/vars''))"
        by simp
    qed
    from Cons.IH [OF k lead before] here Suc show ?thesis
      by (simp add: getLeaderStatus_skip)
  qed
qed

lemma least_index:
  assumes "\<exists>i<length eps. P i"
  shows "\<exists>i<length eps. P i \<and> (\<forall>j<i. \<not> P j)"
proof -
  from assms obtain i where i: "i < length eps" "P i" by blast
  define m where "m = (LEAST k. P k)"
  have "P m" unfolding m_def using i(2) by (rule LeastI)
  moreover have "m \<le> i" unfolding m_def using i(2) by (rule Least_le)
  moreover have "\<forall>j<m. \<not> P j" unfolding m_def using not_less_Least by blast
  ultimately show ?thesis using i(1) by (intro exI [of _ m]) simp
qed

text \<open>
  The two ways a call ends: at the first endpoint that self-reports leadership, after
  one request to each endpoint up to it; or with the no-leader error, after one request
  to every endpoint.
\<close>

lemma getLeaderStatus_cases:
  "(\<exists>i<length eps.
      self_reported_leader (tr (n + i) (eps ! i @ ''/debug/vars'')) \<and>
      (\<forall>j<i. \<not> self_reported_leader (tr (n + j) (eps ! j @ ''/debug/vars''))) \<and>
      getLeaderStatus tr n eps =
        ((eps ! i, snapshot (tr (n + i) (eps ! i @ ''/debug/vars'')), None),
         map (\<lambda>ep. Get (ep @ ''/debug/vars'')) (take (Suc i) eps)))
   \<or> ((\<forall>i<length eps. \<not> self_reported_leader (tr (n + i) (eps ! i @ ''/debug/vars''))) \<and>
       getLeaderStatus tr n eps =
         (([], zero_raftStatus, Some NoLeader), map (\<lambda>ep. Get (ep @ ''/debug/vars'')) eps))"
proof (cases "\<exists>i<length eps. self_reported_leader (tr (n + i) (eps ! i @ ''/debug/vars''))")
  case True
  then obtain i where i: "i < length eps"
    "self_reported_leader (tr (n + i) (eps ! i @ ''/debug/vars''))"
    "\<forall>j<i. \<not> self_reported_leader (tr (n + j) (eps ! j @ ''/debug/vars''))"
    using least_index [of eps "\<lambda>i. self_reported_leader (tr (n + i) (eps ! i @ ''/debug/vars''))"]
    by blast
  from getLeaderStatus_first [OF i] i show ?thesis by blast
next
  case False
  then have none: "\<forall>i<length eps. \<not> self_reported_leader (tr (n + i) (eps ! i @ ''/debug/vars''))"
    by blast
  from getLeaderStatus_none [OF none] none show ?thesis by blast
qed

subsection \<open>The example network\<close>

lemma net_a [simp]:
  "net k s0 s1 n ''http://a:2379/debug/vars'' = Response 200 (Some \<lparr>RaftStatus = (if n < k then s0 else s1)\<rparr>)"
  by (simp add: net_def)

lemma net_b [simp]:
  "net k s0 s1 n ''http://b:2379/debug/vars'' = Response 200 (Some \<lparr>RaftStatus = follower_B\<rparr>)"
  by (simp add: net_def)

lemma net_c [simp]:
  "net k s0 s1 n ''http://c:2379/debug/vars'' = Response 200 (Some \<lparr>RaftStatus = stale_leader_C\<rparr>)"
  by (simp add: net_def)

lemma net_d [simp]: "net k s0 s1 n ''http://d:2379/debug/vars'' = Response 503 None"
  by (simp add: net_def)

lemma net_e [simp]: "net k s0 s1 n ''http://e:2379/debug/vars'' = Response 200 None"
  by (simp add: net_def)

lemma net_f [simp]: "net k s0 s1 n ''http://f:2379/debug/vars'' = GetError"
  by (simp add: net_def)

lemma leader_examples [simp]:
  "self_reported_leader (Response 200 (Some \<lparr>RaftStatus = leader_A0\<rparr>))"
  "self_reported_leader (Response 200 (Some \<lparr>RaftStatus = leader_A1\<rparr>))"
  "self_reported_leader (Response 200 (Some \<lparr>RaftStatus = stale_leader_C\<rparr>))"
  "\<not> self_reported_leader (Response 200 (Some \<lparr>RaftStatus = follower_B\<rparr>))"
  "\<not> self_reported_leader (Response 503 None)"
  "\<not> self_reported_leader (Response 200 None)"
  "\<not> self_reported_leader GetError"
  by (simp_all add: self_reported_leader_def leader_A0_def leader_A1_def stale_leader_C_def follower_B_def)

lemma unavailable_examples [simp]:
  "unavailable GetError" "unavailable (Response 503 None)" "unavailable (Response 200 None)"
  by (simp_all add: unavailable_def)

subsection \<open>The first self-reported leader wins\<close>

text \<open>
  C5. For every list of endpoints, \<open>getLeaderStatus\<close> returns an endpoint and a snapshot
  without error exactly when that endpoint is the first one in input order whose answer
  self-reports leadership (every earlier endpoint failed or did not self-report), and the
  snapshot is the one that answer carried. The snapshot it returns always has
  \<open>Lead = ID\<close>. In particular, when the first two endpoints both self-report leadership,
  the first one's snapshot is returned.
\<close>

theorem getLeaderStatus_first_self_reported_leader:
  "((fst (getLeaderStatus tr n endpoints) = (ep, rs, None)) =
      (\<exists>i<length endpoints.
         ep = endpoints ! i \<and>
         self_reported_leader (tr (n + i) (endpoints ! i @ ''/debug/vars'')) \<and>
         rs = snapshot (tr (n + i) (endpoints ! i @ ''/debug/vars'')) \<and>
         (\<forall>j<i. \<not> self_reported_leader (tr (n + j) (endpoints ! j @ ''/debug/vars'')))))
   \<and> Lead (fst (snd (fst (getLeaderStatus tr n endpoints)))) =
       ID (fst (snd (fst (getLeaderStatus tr n endpoints))))
   \<and> (self_reported_leader (tr n (e1 @ ''/debug/vars'')) \<and>
       self_reported_leader (tr m (e2 @ ''/debug/vars'')) \<longrightarrow>
       fst (getLeaderStatus tr n (e1 # e2 # rest)) =
         (e1, snapshot (tr n (e1 @ ''/debug/vars'')), None))"
proof (intro conjI impI)
  show "(fst (getLeaderStatus tr n endpoints) = (ep, rs, None)) =
      (\<exists>i<length endpoints.
         ep = endpoints ! i \<and>
         self_reported_leader (tr (n + i) (endpoints ! i @ ''/debug/vars'')) \<and>
         rs = snapshot (tr (n + i) (endpoints ! i @ ''/debug/vars'')) \<and>
         (\<forall>j<i. \<not> self_reported_leader (tr (n + j) (endpoints ! j @ ''/debug/vars''))))"
    (is "?L = ?R")
  proof
    assume ret: ?L
    from getLeaderStatus_cases [of endpoints tr n] ret
    obtain i where i: "i < length endpoints"
      "self_reported_leader (tr (n + i) (endpoints ! i @ ''/debug/vars''))"
      "\<forall>j<i. \<not> self_reported_leader (tr (n + j) (endpoints ! j @ ''/debug/vars''))"
      "fst (getLeaderStatus tr n endpoints) =
         (endpoints ! i, snapshot (tr (n + i) (endpoints ! i @ ''/debug/vars'')), None)"
      by auto
    from i(4) ret have "ep = endpoints ! i"
      "rs = snapshot (tr (n + i) (endpoints ! i @ ''/debug/vars''))"
      by auto
    with i show ?R by blast
  next
    assume ?R
    then obtain i where "i < length endpoints" "ep = endpoints ! i"
      "self_reported_leader (tr (n + i) (endpoints ! i @ ''/debug/vars''))"
      "rs = snapshot (tr (n + i) (endpoints ! i @ ''/debug/vars''))"
      "\<forall>j<i. \<not> self_reported_leader (tr (n + j) (endpoints ! j @ ''/debug/vars''))"
      by blast
    then show ?L by (simp add: getLeaderStatus_first)
  qed
next
  from getLeaderStatus_cases [of endpoints tr n]
  show "Lead (fst (snd (fst (getLeaderStatus tr n endpoints)))) =
       ID (fst (snd (fst (getLeaderStatus tr n endpoints))))"
    by (auto simp add: leader_snapshot zero_raftStatus_def)
next
  assume "self_reported_leader (tr n (e1 @ ''/debug/vars'')) \<and>
       self_reported_leader (tr m (e2 @ ''/debug/vars''))"
  then show "fst (getLeaderStatus tr n (e1 # e2 # rest)) =
         (e1, snapshot (tr n (e1 @ ''/debug/vars'')), None)"
    by (simp add: getLeaderStatus_leader)
qed

theorem getLeaderStatus_first_self_reported_leader_witness:
  "fst (getLeaderStatus (net 2 leader_A0 leader_A1) 0
          [''http://f:2379'', ''http://a:2379'', ''http://c:2379'']) =
     (''http://a:2379'', leader_A0, None)
   \<and> fst (getLeaderStatus (net 2 leader_A0 leader_A1) 0
          [''http://a:2379'', ''http://c:2379'', ''http://b:2379'']) =
     (''http://a:2379'', leader_A0, None)"
proof
  let ?tr = "net 2 leader_A0 leader_A1"
  let ?eps = "[''http://f:2379'', ''http://a:2379'', ''http://c:2379'']"
  have "\<exists>i<length ?eps.
         ''http://a:2379'' = ?eps ! i \<and>
         self_reported_leader (?tr (0 + i) (?eps ! i @ ''/debug/vars'')) \<and>
         leader_A0 = snapshot (?tr (0 + i) (?eps ! i @ ''/debug/vars'')) \<and>
         (\<forall>j<i. \<not> self_reported_leader (?tr (0 + j) (?eps ! j @ ''/debug/vars'')))"
    by (rule exI [of _ 1]) (simp add: snapshot_def)
  with getLeaderStatus_first_self_reported_leader [of ?tr 0 ?eps "''http://a:2379''" leader_A0]
  show "fst (getLeaderStatus ?tr 0 ?eps) = (''http://a:2379'', leader_A0, None)"
    by blast
next
  let ?tr = "net 2 leader_A0 leader_A1"
  have "self_reported_leader (?tr 0 (''http://a:2379'' @ ''/debug/vars'')) \<and>
       self_reported_leader (?tr 1 (''http://c:2379'' @ ''/debug/vars''))"
    by simp
  with getLeaderStatus_first_self_reported_leader
         [of ?tr 0 _ _ _ "''http://a:2379''" 1 "''http://c:2379''" "[''http://b:2379'']"]
  show "fst (getLeaderStatus ?tr 0 [''http://a:2379'', ''http://c:2379'', ''http://b:2379'']) =
     (''http://a:2379'', leader_A0, None)"
    by (simp add: snapshot_def)
qed

subsection \<open>No leader\<close>

text \<open>
  C6. Every endpoint of the list fails (transport error, status other than success, body
  that does not decode) or answers with a snapshot that does not self-report leadership,
  exactly when \<open>getLeaderStatus\<close> ends with the no-leader error; it then returns the empty
  endpoint and the zero snapshot, after one request to each endpoint in input order.
\<close>

theorem getLeaderStatus_no_leader:
  "(\<forall>i<length endpoints.
       unavailable (tr (n + i) (endpoints ! i @ ''/debug/vars'')) \<or>
       \<not> self_reported_leader (tr (n + i) (endpoints ! i @ ''/debug/vars'')))
   = (getLeaderStatus tr n endpoints =
        (([], zero_raftStatus, Some NoLeader),
         map (\<lambda>ep. Get (ep @ ''/debug/vars'')) endpoints))"
  (is "?none = ?fails")
proof
  assume ?none
  then have "\<forall>i<length endpoints.
       \<not> self_reported_leader (tr (n + i) (endpoints ! i @ ''/debug/vars''))"
    using unavailable_not_leader by blast
  then show ?fails by (rule getLeaderStatus_none)
next
  assume ?fails
  with getLeaderStatus_cases [of endpoints tr n]
  have "\<forall>i<length endpoints.
       \<not> self_reported_leader (tr (n + i) (endpoints ! i @ ''/debug/vars''))"
    by auto
  then show ?none by blast
qed

theorem getLeaderStatus_no_leader_witness:
  "getLeaderStatus (net 2 leader_A0 leader_A1) 0
     [''http://f:2379'', ''http://d:2379'', ''http://e:2379'', ''http://b:2379''] =
     (([], zero_raftStatus, Some NoLeader),
      [Get ''http://f:2379/debug/vars'', Get ''http://d:2379/debug/vars'',
       Get ''http://e:2379/debug/vars'', Get ''http://b:2379/debug/vars''])"
proof -
  let ?tr = "net 2 leader_A0 leader_A1"
  let ?eps = "[''http://f:2379'', ''http://d:2379'', ''http://e:2379'', ''http://b:2379'']"
  have "\<forall>i<length ?eps.
       unavailable (?tr (0 + i) (?eps ! i @ ''/debug/vars'')) \<or>
       \<not> self_reported_leader (?tr (0 + i) (?eps ! i @ ''/debug/vars''))"
  proof (intro allI impI)
    fix i assume "i < length ?eps"
    then have "i = 0 \<or> i = 1 \<or> i = 2 \<or> i = 3" by auto
    then show "unavailable (?tr (0 + i) (?eps ! i @ ''/debug/vars'')) \<or>
       \<not> self_reported_leader (?tr (0 + i) (?eps ! i @ ''/debug/vars''))"
      by (elim disjE) simp_all
  qed
  with getLeaderStatus_no_leader [of ?eps ?tr 0]
  show ?thesis by simp
qed

subsection \<open>One endpoint\<close>

text \<open>
  C7. For a single endpoint the call succeeds only when the request got a response, the
  status was 200 and the body decoded. A transport error, another status or a decode
  failure is not an error of the run: the endpoint is skipped after its one request (the
  next request goes to the next endpoint, none is repeated), and when it was the only
  endpoint the result is the ordinary no-leader value, which the caller handles.
\<close>

theorem unavailable_endpoint_skipped:
  "(snd (snd (fst (getLeaderStatus tr n [ep]))) = None \<longrightarrow>
      (\<exists>vs. tr n (ep @ ''/debug/vars'') = Response 200 (Some vs)))
   \<and> (unavailable (tr n (ep @ ''/debug/vars'')) \<longrightarrow>
        getLeaderStatus tr n [ep] =
          (([], zero_raftStatus, Some NoLeader), [Get (ep @ ''/debug/vars'')]))
   \<and> (unavailable (tr n (ep @ ''/debug/vars'')) \<longrightarrow>
        getLeaderStatus tr n (ep # endpoints) =
          (fst (getLeaderStatus tr (Suc n) endpoints),
           Get (ep @ ''/debug/vars'') # snd (getLeaderStatus tr (Suc n) endpoints)))"
proof (intro conjI impI)
  assume ok: "snd (snd (fst (getLeaderStatus tr n [ep]))) = None"
  have "self_reported_leader (tr n (ep @ ''/debug/vars''))"
  proof (rule ccontr)
    assume "\<not> ?thesis"
    then have "getLeaderStatus tr n [ep] =
      (([], zero_raftStatus, Some NoLeader), [Get (ep @ ''/debug/vars'')])"
      by (simp add: getLeaderStatus_skip)
    with ok show False by simp
  qed
  then show "\<exists>vs. tr n (ep @ ''/debug/vars'') = Response 200 (Some vs)"
    by (auto simp add: leader_answer)
next
  assume "unavailable (tr n (ep @ ''/debug/vars''))"
  then have "\<not> self_reported_leader (tr n (ep @ ''/debug/vars''))"
    by (rule unavailable_not_leader)
  then show "getLeaderStatus tr n [ep] =
          (([], zero_raftStatus, Some NoLeader), [Get (ep @ ''/debug/vars'')])"
    by (simp add: getLeaderStatus_skip)
next
  assume "unavailable (tr n (ep @ ''/debug/vars''))"
  then have "\<not> self_reported_leader (tr n (ep @ ''/debug/vars''))"
    by (rule unavailable_not_leader)
  then show "getLeaderStatus tr n (ep # endpoints) =
          (fst (getLeaderStatus tr (Suc n) endpoints),
           Get (ep @ ''/debug/vars'') # snd (getLeaderStatus tr (Suc n) endpoints))"
    by (rule getLeaderStatus_skip)
qed

theorem unavailable_endpoint_skipped_witness:
  "(\<exists>vs. net 2 leader_A0 leader_A1 0 (''http://a:2379'' @ ''/debug/vars'') = Response 200 (Some vs))
   \<and> getLeaderStatus (net 2 leader_A0 leader_A1) 0 [''http://d:2379''] =
       (([], zero_raftStatus, Some NoLeader), [Get ''http://d:2379/debug/vars''])
   \<and> getLeaderStatus (net 2 leader_A0 leader_A1) 0 [''http://e:2379'', ''http://a:2379''] =
       ((''http://a:2379'', leader_A0, None),
        [Get ''http://e:2379/debug/vars'', Get ''http://a:2379/debug/vars''])"
proof (intro conjI)
  let ?tr = "net 2 leader_A0 leader_A1"
  have "snd (snd (fst (getLeaderStatus ?tr 0 [''http://a:2379'']))) = None"
    by (simp add: getLeaderStatus_leader)
  with unavailable_endpoint_skipped [of ?tr 0 "''http://a:2379''"]
  show "\<exists>vs. ?tr 0 (''http://a:2379'' @ ''/debug/vars'') = Response 200 (Some vs)"
    by blast
next
  let ?tr = "net 2 leader_A0 leader_A1"
  have "unavailable (?tr 0 (''http://d:2379'' @ ''/debug/vars''))" by simp
  with unavailable_endpoint_skipped [of ?tr 0 "''http://d:2379''"]
  show "getLeaderStatus ?tr 0 [''http://d:2379''] =
       (([], zero_raftStatus, Some NoLeader), [Get ''http://d:2379/debug/vars''])"
    by simp
next
  let ?tr = "net 2 leader_A0 leader_A1"
  have "unavailable (?tr 0 (''http://e:2379'' @ ''/debug/vars''))" by simp
  with unavailable_endpoint_skipped [of ?tr 0 "''http://e:2379''" "[''http://a:2379'']"]
  show "getLeaderStatus ?tr 0 [''http://e:2379'', ''http://a:2379''] =
       ((''http://a:2379'', leader_A0, None),
        [Get ''http://e:2379/debug/vars'', Get ''http://a:2379/debug/vars''])"
    by (simp add: getLeaderStatus_leader snapshot_def)
qed

section \<open>The progress evaluator\<close>

text \<open>
  The loop over \<^verbatim>\<open>rs0.Progress\<close> in closed form: it reaches its end exactly when the
  second snapshot tracks every member of the first, and \<^verbatim>\<open>prints\<close> then holds one line
  per entry, in the order of the iteration.
\<close>

lemma absent_member: "(map_of (Progress rs) mid = None) = (mid \<notin> members rs)"
  by (simp add: members_def map_of_eq_None_iff)

lemma range_Progress_eq:
  "range_Progress ps rs1 acc =
     (if fst ` set ps \<subseteq> members rs1 then Some (acc @ map (member_line rs1) ps) else None)"
proof (induction ps arbitrary: acc)
  case Nil
  then show ?case by simp
next
  case (Cons e ps)
  obtain mid pr0 where e: "e = (mid, pr0)" by (cases e)
  show ?case
  proof (cases "map_of (Progress rs1) mid")
    case None
    then have "mid \<notin> members rs1" by (simp add: absent_member)
    with None e show ?thesis by simp
  next
    case (Some pr1)
    then have "mid \<in> members rs1" using absent_member [of rs1 mid] by simp
    with Some e Cons.IH show ?thesis
      by (auto simp add: member_line_def not_less)
  qed
qed

lemma evaluate_eq:
  "evaluate rs0 rs1 =
     (if members rs0 \<subseteq> members rs1
      then ([if Commit rs0 < Commit rs1 then cluster_healthy (Commit rs0) (Commit rs1)
             else cluster_unhealthy (Commit rs0),
             leader_is (Lead rs0)] @ sort (map (member_line rs1) (Progress rs0)), None)
      else ([if Commit rs0 < Commit rs1 then cluster_healthy (Commit rs0) (Commit rs1)
             else cluster_unhealthy (Commit rs0),
             leader_is (Lead rs0), configuration_changed], Some (Exited 1)))"
  by (simp add: evaluate_def range_Progress_eq sort_Strings_def members_def)

lemma cluster_lines_differ: "cluster_healthy c0 c1 \<noteq> cluster_unhealthy c"
  by (simp add: cluster_healthy_def cluster_unhealthy_def)


subsection \<open>The overall verdict\<close>

text \<open>
  C3. For every pair of snapshots the first line of the report is the healthy line,
  with both commit indices, exactly when \<open>Commit rs1 > Commit rs0\<close> (unsigned
  comparison of 64-bit values); otherwise, that is when \<open>Commit rs1 \<le> Commit rs0\<close>, it is
  the unhealthy line, which reports the stalled index \<open>Commit rs0\<close>. The second line names
  the leader of the first snapshot.
\<close>

theorem overall_verdict:
  "take 2 (fst (evaluate rs0 rs1)) =
     [if Commit rs0 < Commit rs1 then cluster_healthy (Commit rs0) (Commit rs1)
      else cluster_unhealthy (Commit rs0),
      leader_is (Lead rs0)]
   \<and> ((fst (evaluate rs0 rs1) ! 0 = cluster_healthy (Commit rs0) (Commit rs1)) =
        (Commit rs0 < Commit rs1))
   \<and> ((fst (evaluate rs0 rs1) ! 0 = cluster_unhealthy (Commit rs0)) =
        (Commit rs1 \<le> Commit rs0))"
  using cluster_lines_differ [of "Commit rs0" "Commit rs1" "Commit rs0"]
  by (auto simp add: evaluate_eq not_less)

lemma show_examples [simp]:
  "show_uint64 100 = ''100''" "show_uint64 105 = ''105''" "show_uint64 95 = ''95''"
  by code_simp+

theorem overall_verdict_witness:
  "fst (evaluate leader_A0 leader_A1) ! 0 =
     ''cluster is healthy: raft is making progress [commit index: 100->105]\<newline>''
   \<and> fst (evaluate leader_A0 leader_A0) ! 0 =
     ''cluster is unhealthy: raft is not making progress [commit index: 100]\<newline>''"
proof
  have "Commit leader_A0 < Commit leader_A1" by (simp add: leader_A0_def leader_A1_def)
  with overall_verdict [of leader_A0 leader_A1]
  have "fst (evaluate leader_A0 leader_A1) ! 0 = cluster_healthy (Commit leader_A0) (Commit leader_A1)"
    by simp
  then show "fst (evaluate leader_A0 leader_A1) ! 0 =
     ''cluster is healthy: raft is making progress [commit index: 100->105]\<newline>''"
    by (simp add: cluster_healthy_def leader_A0_def leader_A1_def)
next
  have "Commit leader_A0 \<le> Commit leader_A0" by simp
  with overall_verdict [of leader_A0 leader_A0]
  have "fst (evaluate leader_A0 leader_A0) ! 0 = cluster_unhealthy (Commit leader_A0)"
    by simp
  then show "fst (evaluate leader_A0 leader_A0) ! 0 =
     ''cluster is unhealthy: raft is not making progress [commit index: 100]\<newline>''"
    by (simp add: cluster_unhealthy_def leader_A0_def)
qed

subsection \<open>The verdict of each member\<close>


lemma example_range_Progress:
  "range_Progress (Progress leader_A0) leader_A1 [] =
     Some [member_healthy ''A'' 100 105, member_healthy ''B'' 95 100]"
  "range_Progress (Progress leader_A1) leader_A1 [] =
     Some [member_unhealthy ''A'' 105 105, member_unhealthy ''B'' 100 100]"
  by (simp_all add: leader_A0_def leader_A1_def)


subsection \<open>The order of the member lines\<close>

text \<open>A Go map has one value per key, so a lookup does not depend on the order of the entries.\<close>

lemma lookup_permuted:
  assumes "distinct (map fst xs)" and "mset ys = mset xs"
  shows "map_of ys = map_of xs"
proof -
  from assms(2) have "mset (map fst ys) = mset (map fst xs)" by simp
  with assms(1) have "distinct (map fst ys)"
    by (metis mset_eq_imp_distinct_iff)
  moreover from assms(2) have "set ys = set xs" by (rule mset_eq_setD)
  ultimately show ?thesis using assms(1) by (simp add: map_of_inject_set)
qed

text \<open>
  C9. The member lines are rendered first and then sorted as strings: what the report
  holds after its two leading lines is ascending in the lexicographic order of the
  rendered lines and has the same lines, with multiplicity, as the loop rendered. The
  whole report therefore does not depend on the order in which the members of the first
  snapshot are enumerated: any permutation of the entries gives the same result. The
  second snapshot is only looked up by key, so the order of its entries does not matter
  either.
\<close>

theorem member_lines_sorted:
  "(range_Progress (Progress rs0) rs1 [] = Some prints \<longrightarrow>
      sorted (drop 2 (fst (evaluate rs0 rs1))) \<and>
      mset (drop 2 (fst (evaluate rs0 rs1))) = mset prints)
   \<and> (mset ps = mset (Progress rs0) \<longrightarrow>
        evaluate (rs0\<lparr>Progress := ps\<rparr>) rs1 = evaluate rs0 rs1)
   \<and> (distinct (map fst (Progress rs1)) \<and> mset ps1 = mset (Progress rs1) \<longrightarrow>
        evaluate rs0 (rs1\<lparr>Progress := ps1\<rparr>) = evaluate rs0 rs1)"
proof (intro conjI impI)
  assume "range_Progress (Progress rs0) rs1 [] = Some prints"
  then have "drop 2 (fst (evaluate rs0 rs1)) = sort prints"
    by (simp add: evaluate_def sort_Strings_def)
  then show "sorted (drop 2 (fst (evaluate rs0 rs1)))"
    and "mset (drop 2 (fst (evaluate rs0 rs1))) = mset prints"
    by simp_all
next
  assume perm: "mset ps = mset (Progress rs0)"
  then have "set ps = set (Progress rs0)" by (rule mset_eq_setD)
  then have same_members: "members (rs0\<lparr>Progress := ps\<rparr>) = members rs0"
    by (simp add: members_def)
  from perm have "mset (map (member_line rs1) ps) = mset (map (member_line rs1) (Progress rs0))"
    by simp
  then have "sort (map (member_line rs1) ps) = sort (map (member_line rs1) (Progress rs0))"
    by (intro properties_for_sort) simp_all
  with same_members show "evaluate (rs0\<lparr>Progress := ps\<rparr>) rs1 = evaluate rs0 rs1"
    by (simp add: evaluate_eq)
next
  assume "distinct (map fst (Progress rs1)) \<and> mset ps1 = mset (Progress rs1)"
  then have keys: "distinct (map fst (Progress rs1))"
    and perm: "mset ps1 = mset (Progress rs1)"
    by simp_all
  from keys perm have lookup: "map_of ps1 = map_of (Progress rs1)"
    by (rule lookup_permuted)
  from perm have "set ps1 = set (Progress rs1)" by (rule mset_eq_setD)
  then have "members (rs1\<lparr>Progress := ps1\<rparr>) = members rs1"
    by (simp add: members_def)
  moreover from lookup have "member_line (rs1\<lparr>Progress := ps1\<rparr>) = member_line rs1"
    by (auto simp add: member_line_def fun_eq_iff)
  ultimately show "evaluate rs0 (rs1\<lparr>Progress := ps1\<rparr>) = evaluate rs0 rs1"
    by (simp add: evaluate_eq)
qed

theorem member_lines_sorted_witness:
  "sorted (drop 2 (fst (evaluate leader_A0 leader_A1)))
   \<and> mset (drop 2 (fst (evaluate leader_A0 leader_A1))) =
       mset [member_healthy ''A'' 100 105, member_healthy ''B'' 95 100]
   \<and> evaluate (leader_A0\<lparr>Progress := rev (Progress leader_A0)\<rparr>) leader_A1 =
       evaluate leader_A0 leader_A1
   \<and> evaluate leader_A0 (leader_A1\<lparr>Progress := rev (Progress leader_A1)\<rparr>) =
       evaluate leader_A0 leader_A1"
proof -
  note sorted_report = member_lines_sorted
         [of leader_A0 leader_A1 "[member_healthy ''A'' 100 105, member_healthy ''B'' 95 100]"
             "rev (Progress leader_A0)" "rev (Progress leader_A1)"]
  from sorted_report [THEN conjunct1] example_range_Progress(1)
  have rendered: "sorted (drop 2 (fst (evaluate leader_A0 leader_A1))) \<and>
      mset (drop 2 (fst (evaluate leader_A0 leader_A1))) =
        mset [member_healthy ''A'' 100 105, member_healthy ''B'' 95 100]"
    by (rule mp)
  have "mset (rev (Progress leader_A0)) = mset (Progress leader_A0)" by simp
  with sorted_report [THEN conjunct2, THEN conjunct1]
  have first: "evaluate (leader_A0\<lparr>Progress := rev (Progress leader_A0)\<rparr>) leader_A1 =
      evaluate leader_A0 leader_A1"
    by (rule mp)
  have "distinct (map fst (Progress leader_A1)) \<and>
      mset (rev (Progress leader_A1)) = mset (Progress leader_A1)"
    by (simp add: leader_A1_def)
  with sorted_report [THEN conjunct2, THEN conjunct2]
  have second: "evaluate leader_A0 (leader_A1\<lparr>Progress := rev (Progress leader_A1)\<rparr>) =
      evaluate leader_A0 leader_A1"
    by (rule mp)
  from rendered first second show ?thesis by (intro conjI) simp_all
qed

subsection \<open>Members only the second snapshot tracks\<close>

lemma example_members [simp]: "members leader_A0 = {''A'', ''B''}"
  by (auto simp add: members_def leader_A0_def)

text \<open>
  C10. The evaluation reads the second snapshot only through its commit index and the
  entries of the members the first snapshot tracks. A member that only the second
  snapshot tracks changes nothing: no line, no configuration failure, the same verdict.
  The configuration failure is absent exactly when the second snapshot tracks every
  member of the first, whatever else it tracks. The report then consists of the verdict
  line, the leader line and the sorted lines of the entries of the first snapshot, one
  line for each entry and no other line; the line of an entry is the healthy or the
  unhealthy line of its member, with the two match indices of that member.
\<close>

theorem extra_members_ignored:
  "((\<forall>mid \<in> members rs0. map_of (Progress rs1') mid = map_of (Progress rs1) mid) \<and>
      Commit rs1' = Commit rs1 \<longrightarrow>
      evaluate rs0 rs1' = evaluate rs0 rs1)
   \<and> (mid \<notin> members rs0 \<longrightarrow>
        evaluate rs0 (rs1\<lparr>Progress := (mid, pr) # Progress rs1\<rparr>) = evaluate rs0 rs1)
   \<and> ((snd (evaluate rs0 rs1) = None) = (members rs0 \<subseteq> members rs1))
   \<and> (snd (evaluate rs0 rs1) = None \<longrightarrow>
        fst (evaluate rs0 rs1) =
          [if Commit rs0 < Commit rs1 then cluster_healthy (Commit rs0) (Commit rs1)
           else cluster_unhealthy (Commit rs0),
           leader_is (Lead rs0)]
          @ sort (map (member_line rs1) (Progress rs0)) \<and>
        length (fst (evaluate rs0 rs1)) = 2 + length (Progress rs0) \<and>
        mset (drop 2 (fst (evaluate rs0 rs1))) = mset (map (member_line rs1) (Progress rs0)) \<and>
        (\<forall>e \<in> set (Progress rs0).
           \<exists>pr1. map_of (Progress rs1) (fst e) = Some pr1 \<and>
             member_line rs1 e =
               (if Match (snd e) < Match pr1
                then member_healthy (fst e) (Match (snd e)) (Match pr1)
                else member_unhealthy (fst e) (Match (snd e)) (Match pr1))))"
proof -
  have agree: "evaluate rs0 a = evaluate rs0 b"
    if "\<forall>mid \<in> members rs0. map_of (Progress a) mid = map_of (Progress b) mid"
      and "Commit a = Commit b" for a b
  proof -
    from that(1) have "members rs0 \<subseteq> members a \<longleftrightarrow> members rs0 \<subseteq> members b"
      using absent_member by (metis subsetI subsetD)
    moreover from that(1)
    have "map (member_line a) (Progress rs0) = map (member_line b) (Progress rs0)"
      by (auto simp add: member_line_def members_def)
    then have "sort (map (member_line a) (Progress rs0)) =
        sort (map (member_line b) (Progress rs0))"
      by (rule arg_cong)
    ultimately show ?thesis using that(2) by (simp add: evaluate_eq)
  qed
  have front: "evaluate rs0 (rs1\<lparr>Progress := (mid, pr) # Progress rs1\<rparr>) = evaluate rs0 rs1"
    if "mid \<notin> members rs0"
    using that by (intro agree) auto
  have completes: "(snd (evaluate rs0 rs1) = None) = (members rs0 \<subseteq> members rs1)"
    by (simp add: evaluate_eq)
  have report: "fst (evaluate rs0 rs1) =
          [if Commit rs0 < Commit rs1 then cluster_healthy (Commit rs0) (Commit rs1)
           else cluster_unhealthy (Commit rs0),
           leader_is (Lead rs0)]
          @ sort (map (member_line rs1) (Progress rs0)) \<and>
        length (fst (evaluate rs0 rs1)) = 2 + length (Progress rs0) \<and>
        mset (drop 2 (fst (evaluate rs0 rs1))) = mset (map (member_line rs1) (Progress rs0)) \<and>
        (\<forall>e \<in> set (Progress rs0).
           \<exists>pr1. map_of (Progress rs1) (fst e) = Some pr1 \<and>
             member_line rs1 e =
               (if Match (snd e) < Match pr1
                then member_healthy (fst e) (Match (snd e)) (Match pr1)
                else member_unhealthy (fst e) (Match (snd e)) (Match pr1)))"
    if completed: "snd (evaluate rs0 rs1) = None"
  proof -
    from completed completes have tracked: "members rs0 \<subseteq> members rs1" by simp
    have lines: "\<exists>pr1. map_of (Progress rs1) (fst e) = Some pr1 \<and>
             member_line rs1 e =
               (if Match (snd e) < Match pr1
                then member_healthy (fst e) (Match (snd e)) (Match pr1)
                else member_unhealthy (fst e) (Match (snd e)) (Match pr1))"
      if "e \<in> set (Progress rs0)" for e
    proof -
      from that have "fst e \<in> members rs0" by (simp add: members_def)
      with tracked have "fst e \<in> members rs1" by blast
      then obtain pr1 where "map_of (Progress rs1) (fst e) = Some pr1"
        using absent_member [of rs1 "fst e"] by auto
      then show ?thesis by (simp add: member_line_def)
    qed
    from tracked have "fst (evaluate rs0 rs1) =
          [if Commit rs0 < Commit rs1 then cluster_healthy (Commit rs0) (Commit rs1)
           else cluster_unhealthy (Commit rs0),
           leader_is (Lead rs0)]
          @ sort (map (member_line rs1) (Progress rs0))"
      by (simp add: evaluate_eq)
    moreover from this
    have "length (fst (evaluate rs0 rs1)) = 2 + length (Progress rs0)"
      and "mset (drop 2 (fst (evaluate rs0 rs1))) = mset (map (member_line rs1) (Progress rs0))"
      by simp_all
    ultimately show ?thesis using lines by blast
  qed
  from agree front completes report show ?thesis by blast
qed

theorem extra_members_ignored_witness:
  "evaluate leader_A0
     (leader_A1\<lparr>Progress := Progress leader_A1 @ [(''D'', \<lparr>Match = 7, Next = 8, State = []\<rparr>)]\<rparr>) =
     evaluate leader_A0 leader_A1
   \<and> evaluate leader_A0
     (leader_A1\<lparr>Progress := (''D'', \<lparr>Match = 7, Next = 8, State = []\<rparr>) # Progress leader_A1\<rparr>) =
     evaluate leader_A0 leader_A1
   \<and> evaluate leader_A0
     (leader_A1\<lparr>Progress := (''D'', \<lparr>Match = 7, Next = 8, State = []\<rparr>) # Progress leader_A1\<rparr>) =
     ([''cluster is healthy: raft is making progress [commit index: 100->105]\<newline>'',
       ''leader is A\<newline>'',
       ''member A is healthy: raft is making progress [match: 100->105]\<newline>'',
       ''member B is healthy: raft is making progress [match: 95->100]\<newline>''],
      None)"
proof -
  let ?d = "\<lparr>Match = 7, Next = 8, State = []\<rparr>"
  let ?last = "leader_A1\<lparr>Progress := Progress leader_A1 @ [(''D'', ?d)]\<rparr>"
  let ?first = "leader_A1\<lparr>Progress := (''D'', ?d) # Progress leader_A1\<rparr>"
  have "(\<forall>mid \<in> members leader_A0. map_of (Progress ?last) mid = map_of (Progress leader_A1) mid)
      \<and> Commit ?last = Commit leader_A1"
    by (simp add: leader_A1_def)
  with extra_members_ignored [of leader_A0 ?last leader_A1]
  have appended: "evaluate leader_A0 ?last = evaluate leader_A0 leader_A1" by blast
  have "''D'' \<notin> members leader_A0" by simp
  with extra_members_ignored [of leader_A0 _ leader_A1 "''D''" ?d]
  have prepended: "evaluate leader_A0 ?first = evaluate leader_A0 leader_A1" by blast
  note at_front = extra_members_ignored [of leader_A0 _ ?first]
  have "members leader_A0 \<subseteq> members ?first"
    by (simp add: members_def leader_A1_def leader_A0_def)
  with at_front have completed: "snd (evaluate leader_A0 ?first) = None" by blast
  with at_front
  have "fst (evaluate leader_A0 ?first) =
          [if Commit leader_A0 < Commit ?first
           then cluster_healthy (Commit leader_A0) (Commit ?first)
           else cluster_unhealthy (Commit leader_A0),
           leader_is (Lead leader_A0)]
          @ sort (map (member_line ?first) (Progress leader_A0))"
    by blast
  moreover have "map (member_line ?first) (Progress leader_A0) =
      [member_healthy ''A'' 100 105, member_healthy ''B'' 95 100]"
    by (simp add: member_line_def leader_A0_def leader_A1_def)
  moreover have "sort [member_healthy ''A'' 100 105, member_healthy ''B'' 95 100] =
      [member_healthy ''A'' 100 105, member_healthy ''B'' 95 100]"
    by code_simp
  ultimately have "fst (evaluate leader_A0 ?first) =
      [''cluster is healthy: raft is making progress [commit index: 100->105]\<newline>'',
       ''leader is A\<newline>'',
       ''member A is healthy: raft is making progress [match: 100->105]\<newline>'',
       ''member B is healthy: raft is making progress [match: 95->100]\<newline>'']"
    by (simp add: leader_A0_def leader_A1_def cluster_healthy_def leader_is_def
        member_healthy_def)
  with completed have "evaluate leader_A0 ?first =
     ([''cluster is healthy: raft is making progress [commit index: 100->105]\<newline>'',
       ''leader is A\<newline>'',
       ''member A is healthy: raft is making progress [match: 100->105]\<newline>'',
       ''member B is healthy: raft is making progress [match: 95->100]\<newline>''],
      None)"
    by (simp add: prod_eq_iff)
  with appended prepended show ?thesis by (intro conjI)
qed

section \<open>The monitoring loop\<close>

lemma getLeaderStatus_requests:
  "\<exists>k\<le>length eps. snd (getLeaderStatus tr n eps) = map (\<lambda>ep. Get (ep @ ''/debug/vars'')) (take k eps)"
proof -
  from getLeaderStatus_cases [of eps tr n] show ?thesis
  proof (elim disjE exE conjE)
    fix i assume "i < length eps"
      and "getLeaderStatus tr n eps =
        ((eps ! i, snapshot (tr (n + i) (eps ! i @ ''/debug/vars'')), None),
         map (\<lambda>ep. Get (ep @ ''/debug/vars'')) (take (Suc i) eps))"
    then show ?thesis by (intro exI [of _ "Suc i"]) simp
  next
    assume "getLeaderStatus tr n eps =
         (([], zero_raftStatus, Some NoLeader), map (\<lambda>ep. Get (ep @ ''/debug/vars'')) eps)"
    then show ?thesis by (intro exI [of _ "length eps"]) simp
  qed
qed

lemma getLeaderStatus_single: "snd (getLeaderStatus tr n [ep]) = [Get (ep @ ''/debug/vars'')]"
  by (cases "self_reported_leader (tr n (ep @ ''/debug/vars''))")
    (simp_all add: getLeaderStatus_leader getLeaderStatus_skip)

text \<open>The three ways through the body of the loop.\<close>

lemma cycle_no_leader:
  "getLeaderStatus tr n cl = ((ep, rs0, Some err), gets0) \<Longrightarrow>
   cycle forever tr cl n =
     (gets0 @ [Print (failed_to_connect cl)] @ (if forever then [Sleep 10] else []),
      if forever then None else Some (Exited 1), n + length gets0)"
  by (simp add: cycle_def)

lemma cycle_leader_lost:
  "getLeaderStatus tr n cl = ((ep, rs0, None), gets0) \<Longrightarrow>
   getLeaderStatus tr (n + length gets0) [ep] = ((ep1, rs1, Some err), gets1) \<Longrightarrow>
   cycle forever tr cl n =
     (gets0 @ [Sleep 1] @ gets1 @ [Print cluster_is_unhealthy]
        @ (if forever then [Sleep 10] else []),
      if forever then None else Some (Exited 1), n + length gets0 + length gets1)"
  by (simp add: cycle_def)

lemma cycle_evaluated:
  "getLeaderStatus tr n cl = ((ep, rs0, None), gets0) \<Longrightarrow>
   getLeaderStatus tr (n + length gets0) [ep] = ((ep1, rs1, None), gets1) \<Longrightarrow>
   cycle forever tr cl n =
     (gets0 @ [Sleep 1] @ gets1 @ map Print (fst (evaluate rs0 rs1))
        @ (if forever \<and> members rs0 \<subseteq> members rs1 then [Sleep 10] else []),
      if members rs0 \<subseteq> members rs1 then (if forever then None else Some Returned)
      else Some (Exited 1),
      n + length gets0 + length gets1)"
  by (simp add: cycle_def evaluate_eq)

lemma for_loop_again:
  "cycle forever tr cl n = (evs, None, n') \<Longrightarrow>
   for_loop (Suc fuel) forever tr cl n =
     (evs @ fst (for_loop fuel forever tr cl n'), snd (for_loop fuel forever tr cl n'))"
  by (simp add: split_beta)

lemma for_loop_ended:
  "cycle forever tr cl n = (evs, Some st, n') \<Longrightarrow>
   for_loop (Suc fuel) forever tr cl n = (evs, Some st)"
  by simp

lemma cycle_starts_with_probe:
  "\<exists>rest. fst (cycle forever tr cl n) = snd (getLeaderStatus tr n cl) @ rest"
  by (auto simp add: cycle_def split: prod.splits option.splits)

subsection \<open>When no leader is found\<close>

text \<open>
  C8. When the first call of \<open>getLeaderStatus\<close>, over all of \<open>cl\<close>, fails, the one-shot
  run prints the message and exits with status 1 at once; the continuous run prints it,
  sleeps 10 seconds and goes round the loop again, which starts with the probe over
  all of \<open>cl\<close>. When the second call fails the same happens with the message
  \<open>cluster is unhealthy\<close>. The second call is made after a pause of one second and sends
  one request, to the endpoint the first call returned; the pass sends no request after
  it.
\<close>

theorem locator_failure_handling:
  "(getLeaderStatus tr n cl = ((ep, rs0, Some err), gets0) \<longrightarrow>
      for_loop (Suc fuel) False tr cl n =
        (gets0 @ [Print (failed_to_connect cl)], Some (Exited 1)) \<and>
      for_loop (Suc fuel) True tr cl n =
        (gets0 @ [Print (failed_to_connect cl), Sleep 10]
           @ fst (for_loop fuel True tr cl (n + length gets0)),
         snd (for_loop fuel True tr cl (n + length gets0))))
   \<and> (getLeaderStatus tr n cl = ((ep, rs0, None), gets0) \<and>
       getLeaderStatus tr (n + length gets0) [ep] = ((ep1, rs1, Some err), gets1) \<longrightarrow>
      for_loop (Suc fuel) False tr cl n =
        (gets0 @ [Sleep 1, Get (ep @ ''/debug/vars''), Print cluster_is_unhealthy],
         Some (Exited 1)) \<and>
      for_loop (Suc fuel) True tr cl n =
        (gets0 @ [Sleep 1, Get (ep @ ''/debug/vars''), Print cluster_is_unhealthy, Sleep 10]
           @ fst (for_loop fuel True tr cl (n + length gets0 + 1)),
         snd (for_loop fuel True tr cl (n + length gets0 + 1))))
   \<and> (getLeaderStatus tr n cl = ((ep, rs0, None), gets0) \<longrightarrow>
       (\<exists>rest. fst (cycle forever tr cl n) =
            gets0 @ [Sleep 1, Get (ep @ ''/debug/vars'')] @ rest \<and>
          (\<forall>url. Get url \<notin> set rest)))
   \<and> (\<exists>rest. fst (for_loop (Suc fuel) forever tr cl n) =
          snd (getLeaderStatus tr n cl) @ rest)"
proof (intro conjI impI)
  assume fail: "getLeaderStatus tr n cl = ((ep, rs0, Some err), gets0)"
  from cycle_no_leader [OF fail, of False]
  show "for_loop (Suc fuel) False tr cl n =
        (gets0 @ [Print (failed_to_connect cl)], Some (Exited 1))"
    by simp
  from cycle_no_leader [OF fail, of True]
  have "cycle True tr cl n =
      (gets0 @ [Print (failed_to_connect cl), Sleep 10], None, n + length gets0)"
    by simp
  from for_loop_again [OF this, of fuel]
  show "for_loop (Suc fuel) True tr cl n =
        (gets0 @ [Print (failed_to_connect cl), Sleep 10]
           @ fst (for_loop fuel True tr cl (n + length gets0)),
         snd (for_loop fuel True tr cl (n + length gets0)))"
    by simp
next
  assume both: "getLeaderStatus tr n cl = ((ep, rs0, None), gets0) \<and>
       getLeaderStatus tr (n + length gets0) [ep] = ((ep1, rs1, Some err), gets1)"
  then have first: "getLeaderStatus tr n cl = ((ep, rs0, None), gets0)"
    and second: "getLeaderStatus tr (n + length gets0) [ep] = ((ep1, rs1, Some err), gets1)"
    by simp_all
  from second getLeaderStatus_single [of tr "n + length gets0" ep]
  have gets1: "gets1 = [Get (ep @ ''/debug/vars'')]" by simp
  from cycle_leader_lost [OF first second, of False] gets1
  show "for_loop (Suc fuel) False tr cl n =
        (gets0 @ [Sleep 1, Get (ep @ ''/debug/vars''), Print cluster_is_unhealthy],
         Some (Exited 1))"
    by simp
  from cycle_leader_lost [OF first second, of True] gets1
  have "cycle True tr cl n =
      (gets0 @ [Sleep 1, Get (ep @ ''/debug/vars''), Print cluster_is_unhealthy, Sleep 10],
       None, n + length gets0 + 1)"
    by simp
  from for_loop_again [OF this, of fuel]
  show "for_loop (Suc fuel) True tr cl n =
        (gets0 @ [Sleep 1, Get (ep @ ''/debug/vars''), Print cluster_is_unhealthy, Sleep 10]
           @ fst (for_loop fuel True tr cl (n + length gets0 + 1)),
         snd (for_loop fuel True tr cl (n + length gets0 + 1)))"
    by simp
next
  assume first: "getLeaderStatus tr n cl = ((ep, rs0, None), gets0)"
  obtain r1 gets1 where second: "getLeaderStatus tr (n + length gets0) [ep] = (r1, gets1)"
    by (cases "getLeaderStatus tr (n + length gets0) [ep]")
  obtain ep1 rs1 e1 where r1: "r1 = (ep1, rs1, e1)" by (cases r1)
  from second getLeaderStatus_single [of tr "n + length gets0" ep]
  have gets1: "gets1 = [Get (ep @ ''/debug/vars'')]" by simp
  show "\<exists>rest. fst (cycle forever tr cl n) =
            gets0 @ [Sleep 1, Get (ep @ ''/debug/vars'')] @ rest \<and>
          (\<forall>url. Get url \<notin> set rest)"
  proof (cases e1)
    case None
    with second r1 have "getLeaderStatus tr (n + length gets0) [ep] = ((ep1, rs1, None), gets1)"
      by simp
    from cycle_evaluated [OF first this, of forever] gets1
    show ?thesis by auto
  next
    case (Some err)
    with second r1
    have "getLeaderStatus tr (n + length gets0) [ep] = ((ep1, rs1, Some err), gets1)"
      by simp
    from cycle_leader_lost [OF first this, of forever] gets1
    show ?thesis by auto
  qed
next
  obtain evs r n' where c: "cycle forever tr cl n = (evs, r, n')"
    by (cases "cycle forever tr cl n")
  from cycle_starts_with_probe [of forever tr cl n] c
  obtain rest where rest: "evs = snd (getLeaderStatus tr n cl) @ rest" by auto
  show "\<exists>rest. fst (for_loop (Suc fuel) forever tr cl n) =
          snd (getLeaderStatus tr n cl) @ rest"
  proof (cases r)
    case None
    with c rest for_loop_again [of forever tr cl n evs n' fuel] show ?thesis by simp
  next
    case (Some st)
    with c rest for_loop_ended [of forever tr cl n evs st n' fuel] show ?thesis by simp
  qed
qed

theorem locator_failure_handling_witness:
  "for_loop 1 False (net 1 leader_A0 leader_A1) [''http://f:2379'', ''http://b:2379''] 0 =
     ([Get ''http://f:2379/debug/vars'', Get ''http://b:2379/debug/vars'',
       Print (failed_to_connect [''http://f:2379'', ''http://b:2379''])],
      Some (Exited 1))
   \<and> for_loop 2 True (net 1 leader_A0 leader_A1) [''http://f:2379'', ''http://b:2379''] 0 =
     ([Get ''http://f:2379/debug/vars'', Get ''http://b:2379/debug/vars'',
       Print (failed_to_connect [''http://f:2379'', ''http://b:2379'']), Sleep 10,
       Get ''http://f:2379/debug/vars'', Get ''http://b:2379/debug/vars'',
       Print (failed_to_connect [''http://f:2379'', ''http://b:2379'']), Sleep 10],
      None)
   \<and> for_loop 1 False (net 2 leader_A0 follower_B) [''http://f:2379'', ''http://a:2379''] 0 =
     ([Get ''http://f:2379/debug/vars'', Get ''http://a:2379/debug/vars'', Sleep 1,
       Get ''http://a:2379/debug/vars'', Print cluster_is_unhealthy],
      Some (Exited 1))
   \<and> (\<exists>rest. fst (cycle True (net 2 leader_A0 leader_A1) [''http://f:2379'', ''http://a:2379''] 0) =
         [Get ''http://f:2379/debug/vars'', Get ''http://a:2379/debug/vars'', Sleep 1,
          Get ''http://a:2379/debug/vars''] @ rest \<and>
         (\<forall>url. Get url \<notin> set rest))"
proof -
  let ?tr = "net 1 leader_A0 leader_A1"
  let ?cl = "[''http://f:2379'', ''http://b:2379'']"
  let ?gets = "[Get ''http://f:2379/debug/vars'', Get ''http://b:2379/debug/vars'']"
  have fail: "getLeaderStatus ?tr n ?cl = (([], zero_raftStatus, Some NoLeader), ?gets)" for n
    by (simp add: getLeaderStatus_skip)
  from locator_failure_handling [of ?tr 0 ?cl "[]" zero_raftStatus NoLeader ?gets 0] fail [of 0]
  have one_shot: "for_loop 1 False ?tr ?cl 0 =
      ([Get ''http://f:2379/debug/vars'', Get ''http://b:2379/debug/vars'',
        Print (failed_to_connect ?cl)], Some (Exited 1))"
    by simp
  from locator_failure_handling [of ?tr 2 ?cl "[]" zero_raftStatus NoLeader ?gets 0] fail [of 2]
  have "for_loop 1 True ?tr ?cl 2 = (?gets @ [Print (failed_to_connect ?cl), Sleep 10], None)"
    by simp
  with locator_failure_handling [of ?tr 0 ?cl "[]" zero_raftStatus NoLeader ?gets 1] fail [of 0]
  have continuous: "for_loop 2 True ?tr ?cl 0 =
     ([Get ''http://f:2379/debug/vars'', Get ''http://b:2379/debug/vars'',
       Print (failed_to_connect ?cl), Sleep 10,
       Get ''http://f:2379/debug/vars'', Get ''http://b:2379/debug/vars'',
       Print (failed_to_connect ?cl), Sleep 10], None)"
    by (simp add: numeral_2_eq_2)
  let ?tr' = "net 2 leader_A0 follower_B"
  let ?cl' = "[''http://f:2379'', ''http://a:2379'']"
  let ?gets' = "[Get ''http://f:2379/debug/vars'', Get ''http://a:2379/debug/vars'']"
  have first: "getLeaderStatus (net 2 leader_A0 s1) 0 ?cl' = ((''http://a:2379'', leader_A0, None), ?gets')"
    for s1
    by (simp add: getLeaderStatus_skip getLeaderStatus_leader snapshot_def)
  have second: "getLeaderStatus ?tr' (0 + length ?gets') [''http://a:2379''] =
      (([], zero_raftStatus, Some NoLeader), [Get ''http://a:2379/debug/vars''])"
    by (simp add: getLeaderStatus_skip)
  from locator_failure_handling
         [of ?tr' 0 ?cl' "''http://a:2379''" leader_A0 NoLeader ?gets' 0 "[]" zero_raftStatus
             "[Get ''http://a:2379/debug/vars'']"]
       first [of follower_B] second
  have lost: "for_loop 1 False ?tr' ?cl' 0 =
     ([Get ''http://f:2379/debug/vars'', Get ''http://a:2379/debug/vars'', Sleep 1,
       Get ''http://a:2379/debug/vars'', Print cluster_is_unhealthy],
      Some (Exited 1))"
    by simp
  from locator_failure_handling
         [of "net 2 leader_A0 leader_A1" 0 ?cl' "''http://a:2379''" leader_A0 _ ?gets' _ _ _ _ True]
       first [of leader_A1]
  have restricted: "\<exists>rest. fst (cycle True (net 2 leader_A0 leader_A1) ?cl' 0) =
         [Get ''http://f:2379/debug/vars'', Get ''http://a:2379/debug/vars'', Sleep 1,
          Get ''http://a:2379/debug/vars''] @ rest \<and>
         (\<forall>url. Get url \<notin> set rest)"
    by simp
  from one_shot continuous lost restricted show ?thesis by blast
qed

subsection \<open>A member that disappeared\<close>

text \<open>
  C2, as the code has it. When a member the first snapshot tracks is missing from the
  second, the pass ends the process with status 1, in the one-shot run and in the
  continuous run alike, without a pause and without going round the loop again. By then
  the line of the overall verdict and the line of the leader have been printed; the
  configuration message follows them, and no line of a member is printed.
\<close>

theorem configuration_change_exits:
  assumes "getLeaderStatus tr n cl = ((ep, rs0, None), gets0)"
    and "getLeaderStatus tr (n + length gets0) [ep] = ((ep1, rs1, None), gets1)"
    and "mid \<in> members rs0" and "mid \<notin> members rs1"
  shows "for_loop (Suc fuel) forever tr cl n =
     (gets0 @ [Sleep 1, Get (ep @ ''/debug/vars''),
        Print (if Commit rs0 < Commit rs1 then cluster_healthy (Commit rs0) (Commit rs1)
               else cluster_unhealthy (Commit rs0)),
        Print (leader_is (Lead rs0)),
        Print configuration_changed],
      Some (Exited 1))"
proof -
  from assms(3,4) have changed: "\<not> members rs0 \<subseteq> members rs1" by blast
  from assms(2) getLeaderStatus_single [of tr "n + length gets0" ep]
  have "gets1 = [Get (ep @ ''/debug/vars'')]" by simp
  with cycle_evaluated [OF assms(1,2), of forever] changed show ?thesis
    by (simp add: evaluate_eq)
qed

theorem configuration_change_exits_witness:
  "for_loop 1 True (net 1 leader_A0 leader_A_alone) [''http://a:2379''] 0 =
     ([Get ''http://a:2379/debug/vars'', Sleep 1, Get ''http://a:2379/debug/vars'',
       Print (cluster_healthy 100 105), Print (leader_is ''A''), Print configuration_changed],
      Some (Exited 1))
   \<and> for_loop 1 False (net 1 leader_A0 leader_A_alone) [''http://a:2379''] 0 =
     ([Get ''http://a:2379/debug/vars'', Sleep 1, Get ''http://a:2379/debug/vars'',
       Print (cluster_healthy 100 105), Print (leader_is ''A''), Print configuration_changed],
      Some (Exited 1))"
proof -
  let ?tr = "net 1 leader_A0 leader_A_alone"
  have first: "getLeaderStatus ?tr 0 [''http://a:2379''] =
      ((''http://a:2379'', leader_A0, None), [Get ''http://a:2379/debug/vars''])"
    by (simp add: getLeaderStatus_leader snapshot_def)
  have second: "getLeaderStatus ?tr (0 + length [Get ''http://a:2379/debug/vars'']) [''http://a:2379''] =
      ((''http://a:2379'', leader_A_alone, None), [Get ''http://a:2379/debug/vars''])"
    by (simp add: getLeaderStatus_leader snapshot_def self_reported_leader_def leader_A_alone_def)
  have b: "''B'' \<in> members leader_A0" "''B'' \<notin> members leader_A_alone"
    by (simp_all add: absent_member [symmetric] leader_A_alone_def)
  from configuration_change_exits [OF first second b, of 0]
  show ?thesis
    by (simp add: leader_A0_def leader_A_alone_def)
qed

text \<open>
  The run that shows it: \<open>B\<close> has left between the two snapshots, and the output holds
  the verdict line and the leader line before the configuration message.
\<close>

theorem configuration_change_partial_report:
  "''B'' \<in> members leader_A0 \<and> ''B'' \<notin> members leader_A_alone
   \<and> handleClusterHealth 1 False (net 1 leader_A0 leader_A_alone) [[''http://a:2379'']] =
     ([Get ''http://a:2379/debug/vars'', Sleep 1, Get ''http://a:2379/debug/vars'',
       Print ''cluster is healthy: raft is making progress [commit index: 100->105]\<newline>'',
       Print ''leader is A\<newline>'',
       Print ''Cluster configuration changed during health checking. Please retry.\<newline>''],
      Some (Exited 1))"
  by code_simp

subsection \<open>The exit status of a one-shot run\<close>

text \<open>
  A one-shot run ends in its first pass. It returns, whatever the verdicts, exactly when
  both probes found the leader and the second snapshot tracks every member of the first;
  in every other case it exits with status 1.
\<close>

lemma one_shot_exit_status:
  "\<exists>evs st. for_loop (Suc fuel) False tr cl n = (evs, Some st) \<and>
     (st = Returned) =
       (\<exists>ep rs0 gets0 ep1 rs1 gets1.
          getLeaderStatus tr n cl = ((ep, rs0, None), gets0) \<and>
          getLeaderStatus tr (n + length gets0) [ep] = ((ep1, rs1, None), gets1) \<and>
          members rs0 \<subseteq> members rs1) \<and>
     (st \<noteq> Returned \<longrightarrow> st = Exited 1)"
proof -
  obtain ep rs0 e0 gets0 where first: "getLeaderStatus tr n cl = ((ep, rs0, e0), gets0)"
    by (metis prod.exhaust)
  obtain ep1 rs1 e1 gets1
    where second: "getLeaderStatus tr (n + length gets0) [ep] = ((ep1, rs1, e1), gets1)"
    by (metis prod.exhaust)
  show ?thesis
  proof (cases e0)
    case (Some err)
    with first cycle_no_leader [of tr n cl ep rs0 err gets0 False] show ?thesis
      by auto
  next
    case None
    note e0 = this
    show ?thesis
    proof (cases e1)
      case (Some err)
      with first second e0 cycle_leader_lost [of tr n cl ep rs0 gets0 ep1 rs1 err gets1 False]
      show ?thesis by auto
    next
      case None
      with first second e0 cycle_evaluated [of tr n cl ep rs0 gets0 ep1 rs1 gets1 False]
      show ?thesis by auto
    qed
  qed
qed

text \<open>
  C1, at a stalled cluster. The commit index is 100 in both snapshots and no match index
  grew: the one-shot run prints the unhealthy verdict for the cluster and for both
  members, and then the handler returns, so the process ends with status 0.
\<close>

theorem unhealthy_one_shot_returns:
  "handleClusterHealth 1 False (net 1 leader_A0 leader_A0) [[''http://a:2379'']] =
     ([Get ''http://a:2379/debug/vars'', Sleep 1, Get ''http://a:2379/debug/vars'',
       Print ''cluster is unhealthy: raft is not making progress [commit index: 100]\<newline>'',
       Print ''leader is A\<newline>'',
       Print ''member A is unhealthy: raft is not making progress [match: 100->100]\<newline>'',
       Print ''member B is unhealthy: raft is not making progress [match: 95->95]\<newline>''],
      Some Returned)
   \<and> exit_status Returned = 0"
  by code_simp

end
